theory Spec2Isabelle
  imports Complex_Main
begin

section \<open>The drawing context as a log of calls\<close>

text \<open>
  The program of \<^verbatim>\<open>Zad2Lab1/index.js\<close> never reads pixels back while it draws: everything
  it does to the 2D context \<^verbatim>\<open>graphics\<close> is a sequence of method calls and of assignments
  to \<^verbatim>\<open>fillStyle\<close>. The context is therefore modelled by the list of these calls, in the
  order in which they are issued. JavaScript numbers are idealised as real numbers
  (rounding errors of the floating point arithmetic are not modelled).
\<close>

datatype cmd =
    SetFillStyle string
  | ClearRect real real real real
  | FillRect real real real real
  | StrokeRect real real real real
  | BeginPath
  | MoveTo real real
  | LineTo real real
  | Arc real real real real real bool
  | ClosePath
  | Fill
  | Stroke
  | Save
  | Restore
  | Translate real real
  | Scale real real

section \<open>Numbers and strings\<close>

text \<open>\<^verbatim>\<open>Math.round\<close>: the nearest integer, a tie going to the larger one.\<close>

definition Math_round :: "real \<Rightarrow> int" where
  "Math_round v = \<lfloor>v + 1 / 2\<rfloor>"

text \<open>The decimal digits of a number, as string concatenation \<^verbatim>\<open>"" + r\<close> writes them.\<close>

definition digit :: "nat \<Rightarrow> char" where
  "digit d = ''0123456789'' ! (d mod 10)"

function string_of_nat :: "nat \<Rightarrow> string" where
  "string_of_nat n =
     (if n < 10 then [digit n]
      else string_of_nat (n div 10) @ [digit (n mod 10)])"
  by pat_completeness auto
termination
  by (relation "measure (\<lambda>n. n)") auto

declare string_of_nat.simps [simp del]

definition string_of_int :: "int \<Rightarrow> string" where
  "string_of_int i = (if i < 0 then CHR ''-'' # string_of_nat (nat (- i)) else string_of_nat (nat i))"

text \<open>
  \<^verbatim>\<open>randomColorString\<close>: the three results of \<^verbatim>\<open>Math.random()\<close>, each in \<open>[0, 1)\<close>, are
  inputs of the model.
\<close>

definition randomColorString :: "real \<times> real \<times> real \<Rightarrow> string" where
  "randomColorString rnd =
     (case rnd of (r1, r2, r3) \<Rightarrow>
        let r = \<lfloor>256 * r1\<rfloor>; g = \<lfloor>256 * r2\<rfloor>; b = \<lfloor>256 * r3\<rfloor>
        in ''rgb('' @ string_of_int r @ '','' @ string_of_int g @ '','' @ string_of_int b @ '')'')"

section \<open>The drag controller (\<^verbatim>\<open>installMouseHandler\<close>)\<close>

datatype handler = DoMouseDown | DoMouseMove | DoMouseUp

text \<open>
  The variables closed over by the three handlers, the call log of \<^verbatim>\<open>graphics\<close> and the
  event listener list of \<^verbatim>\<open>document\<close>. A variable that has not been assigned yet
  (\<^verbatim>\<open>undefined\<close>) is \<open>None\<close>. A listener is its event type, its callback and its
  capture flag.
\<close>

record state =
  dragging :: bool
  startX :: "int option"
  startY :: "int option"
  prevX :: "int option"
  prevY :: "int option"
  colorChoice :: "int option"
  shapeType :: "int option"
  graphics :: "cmd list"
  docListeners :: "(string \<times> handler \<times> bool) list"

text \<open>The fields of a mouse event that the handlers read.\<close>

record mouse_event =
  button :: int
  clientX :: real
  clientY :: real

text \<open>
  What a handler reads from its surroundings when it runs: the bounding rectangle of the
  canvas, the numbers \<^verbatim>\<open>Number(document.getElementById(...).value)\<close> of the two controls,
  and the next three results of \<^verbatim>\<open>Math.random()\<close>.
\<close>

record env =
  rect_left :: real
  rect_top :: real
  colorChoice_value :: int
  shapeType_value :: int
  randoms :: "real \<times> real \<times> real"

text \<open>
  \<^verbatim>\<open>document.addEventListener\<close> appends the listener unless one with the same type,
  callback and capture flag is in the list; \<^verbatim>\<open>document.removeEventListener\<close> removes
  that listener when it is there.
\<close>

definition addEventListener :: "string \<Rightarrow> handler \<Rightarrow> bool \<Rightarrow> state \<Rightarrow> state" where
  "addEventListener ty h c s =
     (if (ty, h, c) \<in> set (docListeners s) then s
      else s\<lparr>docListeners := docListeners s @ [(ty, h, c)]\<rparr>)"

definition removeEventListener :: "string \<Rightarrow> handler \<Rightarrow> bool \<Rightarrow> state \<Rightarrow> state" where
  "removeEventListener ty h c s = s\<lparr>docListeners := remove1 (ty, h, c) (docListeners s)\<rparr>"

definition doMouseDown :: "env \<Rightarrow> mouse_event \<Rightarrow> state \<Rightarrow> state" where
  "doMouseDown env evt s =
     (if dragging s then s
      else if button evt \<noteq> 0 then s
      else
        let x = Math_round (clientX evt - rect_left env);
            y = Math_round (clientY evt - rect_top env);
            s1 = s\<lparr>dragging := True\<rparr>;
            s2 = (if dragging s1 then
                    addEventListener ''mouseup'' DoMouseUp False
                      (addEventListener ''mousemove'' DoMouseMove False
                         (s1\<lparr>startX := Some x, prevX := Some x,
                             startY := Some y, prevY := Some y\<rparr>))
                  else s1)
        in s2\<lparr>colorChoice := Some (colorChoice_value env),
               shapeType := Some (shapeType_value env)\<rparr>)"

text \<open>
  The test \<^verbatim>\<open>Math.abs(x - prevX) + Math.abs(y - prevY) < 3\<close>. With an undefined
  \<^verbatim>\<open>prevX\<close> or \<^verbatim>\<open>prevY\<close> the sum is \<^verbatim>\<open>NaN\<close> and the comparison is false.
\<close>

definition tooClose :: "int \<Rightarrow> int \<Rightarrow> int option \<Rightarrow> int option \<Rightarrow> bool" where
  "tooClose x y px py =
     (case px of None \<Rightarrow> False
      | Some px' \<Rightarrow> (case py of None \<Rightarrow> False
                     | Some py' \<Rightarrow> \<bar>x - px'\<bar> + \<bar>y - py'\<bar> < 3))"

text \<open>The \<^verbatim>\<open>switch (colorChoice)\<close>: the calls it issues. It has no default case.\<close>

definition colorSwitch :: "int option \<Rightarrow> real \<times> real \<times> real \<Rightarrow> cmd list" where
  "colorSwitch c rnd =
     (if c = Some 0 then [SetFillStyle (randomColorString rnd)]
      else if c = Some 1 then [SetFillStyle ''red'']
      else if c = Some 2 then [SetFillStyle ''green'']
      else if c = Some 3 then [SetFillStyle ''blue'']
      else if c = Some 4 then [SetFillStyle ''yellow'']
      else [])"

definition numOfVertices :: nat where
  "numOfVertices = 13"

text \<open>The constant \<^verbatim>\<open>size\<close> of the star case.\<close>

definition size_star :: real where
  "size_star = 50"

text \<open>The loop \<^verbatim>\<open>for (var i = 0; i <= numOfVertices; i++)\<close>, from the index \<open>i\<close> on.\<close>

function starLoop :: "int \<Rightarrow> int \<Rightarrow> nat \<Rightarrow> cmd list" where
  "starLoop x y i =
     (if i \<le> numOfVertices then
        (let nx = real_of_int x + size_star * cos (real i * 2 * pi / real numOfVertices);
             ny = real_of_int y + size_star * sin (real i * 2 * pi / real numOfVertices)
         in LineTo nx ny # starLoop x y (Suc i))
      else [])"
  by pat_completeness auto
termination
  by (relation "measure (\<lambda>(x, y, i). Suc numOfVertices - i)") auto

declare starLoop.simps [simp del]

text \<open>The \<^verbatim>\<open>switch (shapeType)\<close>: the calls it issues. It has no default case.\<close>

definition shapeSwitch :: "int option \<Rightarrow> int \<Rightarrow> int \<Rightarrow> cmd list" where
  "shapeSwitch sh x y =
     (if sh = Some 0 then
        [FillRect (real_of_int x - 20) (real_of_int y - 20) 40 40,
         StrokeRect (real_of_int x - 20) (real_of_int y - 20) 40 40]
      else if sh = Some 1 then
        [BeginPath,
         MoveTo (real_of_int x + size_star * cos 0) (real_of_int y + size_star * sin 0)]
        @ starLoop x y 0 @ [Fill, Stroke]
      else [])"

definition doMouseMove :: "env \<Rightarrow> mouse_event \<Rightarrow> state \<Rightarrow> state" where
  "doMouseMove env evt s =
     (if \<not> dragging s then s
      else
        let x = Math_round (clientX evt - rect_left env);
            y = Math_round (clientY evt - rect_top env)
        in if tooClose x y (prevX s) (prevY s) then s
           else
             let s1 = s\<lparr>graphics := graphics s @ colorSwitch (colorChoice s) (randoms env)\<rparr>;
                 s2 = s1\<lparr>graphics := graphics s1 @ shapeSwitch (shapeType s1) x y\<rparr>
             in s2\<lparr>prevX := Some x, prevY := Some y\<rparr>)"

text \<open>
  \<^verbatim>\<open>doMouseUp\<close>. Both calls of \<^verbatim>\<open>removeEventListener\<close> name the callback
  \<^verbatim>\<open>doMouseMove\<close>, as the source does.
\<close>

definition doMouseUp :: "env \<Rightarrow> mouse_event \<Rightarrow> state \<Rightarrow> state" where
  "doMouseUp env evt s =
     (if \<not> dragging s then s
      else
        removeEventListener ''mouseup'' DoMouseMove False
          (removeEventListener ''mousemove'' DoMouseMove False
             (s\<lparr>dragging := False\<rparr>)))"

section \<open>Start-up and event delivery\<close>

text \<open>
  The state when \<^verbatim>\<open>init\<close> has returned, for a canvas of the given width and height:
  the closure variables of \<^verbatim>\<open>installMouseHandler\<close> as declared, the canvas painted
  white, and no listener on \<^verbatim>\<open>document\<close>. The listener for \<^verbatim>\<open>mousedown\<close> that
  \<^verbatim>\<open>installMouseHandler\<close> puts on the canvas is never removed; it is the first case of
  \<open>fire\<close> below.
\<close>

definition init :: "real \<Rightarrow> real \<Rightarrow> state" where
  "init cw ch =
     \<lparr>dragging = False, startX = None, startY = None, prevX = None, prevY = None,
      colorChoice = None, shapeType = None,
      graphics = [SetFillStyle ''white'', FillRect 0 0 cw ch],
      docListeners = []\<rparr>"

text \<open>\<^verbatim>\<open>clear\<close>, for a canvas of the given width and height.\<close>

definition clear :: "real \<Rightarrow> real \<Rightarrow> state \<Rightarrow> state" where
  "clear cw ch s = s\<lparr>graphics := graphics s @ [ClearRect 0 0 cw ch]\<rparr>"

fun call :: "handler \<Rightarrow> env \<Rightarrow> mouse_event \<Rightarrow> state \<Rightarrow> state" where
  "call DoMouseDown env evt s = doMouseDown env evt s"
| "call DoMouseMove env evt s = doMouseMove env evt s"
| "call DoMouseUp env evt s = doMouseUp env evt s"

text \<open>
  Delivery of an event of type \<open>ty\<close> at \<^verbatim>\<open>document\<close>: the listeners registered when the
  delivery starts are run in order, each one only if its type matches and it has not been
  removed meanwhile.
\<close>

fun runListeners ::
  "string \<Rightarrow> env \<Rightarrow> mouse_event \<Rightarrow> (string \<times> handler \<times> bool) list \<Rightarrow> state \<Rightarrow> state" where
  "runListeners ty env evt [] s = s"
| "runListeners ty env evt (l # ls) s =
     (if fst l = ty \<and> l \<in> set (docListeners s)
      then runListeners ty env evt ls (call (fst (snd l)) env evt s)
      else runListeners ty env evt ls s)"

definition dispatchDocument :: "string \<Rightarrow> env \<Rightarrow> mouse_event \<Rightarrow> state \<Rightarrow> state" where
  "dispatchDocument ty env evt s = runListeners ty env evt (docListeners s) s"

text \<open>
  One event: a \<^verbatim>\<open>mousedown\<close> on the canvas runs \<^verbatim>\<open>doMouseDown\<close>; an event of any other
  type is delivered at \<^verbatim>\<open>document\<close>.
\<close>

fun fire :: "string \<times> env \<times> mouse_event \<Rightarrow> state \<Rightarrow> state" where
  "fire (ty, env, evt) s =
     (if ty = ''mousedown'' then doMouseDown env evt s else dispatchDocument ty env evt s)"

definition run :: "(string \<times> env \<times> mouse_event) list \<Rightarrow> state \<Rightarrow> state" where
  "run evs s = fold fire evs s"

inductive reachable :: "state \<Rightarrow> bool" where
  reachable_init: "reachable (init cw ch)"
| reachable_fire: "reachable s \<Longrightarrow> reachable (fire e s)"

section \<open>The drawing helpers (\<^verbatim>\<open>addGraphicsContextExtras\<close>)\<close>

text \<open>Each helper is the list of calls it issues on \<^verbatim>\<open>this\<close>.\<close>

definition strokeLine :: "real \<Rightarrow> real \<Rightarrow> real \<Rightarrow> real \<Rightarrow> cmd list" where
  "strokeLine x1 y1 x2 y2 = [BeginPath, MoveTo x1 y1, LineTo x2 y2, Stroke]"

definition fillCircle :: "real \<Rightarrow> real \<Rightarrow> real \<Rightarrow> cmd list" where
  "fillCircle x y r = [BeginPath, Arc x y r 0 (2 * pi) False, Fill]"

definition strokeCircle :: "real \<Rightarrow> real \<Rightarrow> real \<Rightarrow> cmd list" where
  "strokeCircle x y radius = [BeginPath, Arc x y radius 0 (2 * pi) False, Stroke]"

text \<open>
  The loop \<^verbatim>\<open>for (var i = 2; i + 1 < arguments.length; i = i + 2)\<close> of \<^verbatim>\<open>fillPoly\<close>
  and \<^verbatim>\<open>strokePoly\<close>, from the index \<open>i\<close> on. Both reads \<open>arguments[i]\<close> and
  \<open>arguments[i + 1]\<close> are in range under the loop condition.
\<close>

function polyLoop :: "real list \<Rightarrow> nat \<Rightarrow> cmd list" where
  "polyLoop arguments i =
     (if i + 1 < length arguments
      then LineTo (arguments ! i) (arguments ! (i + 1)) # polyLoop arguments (i + 2)
      else [])"
  by pat_completeness auto
termination
  by (relation "measure (\<lambda>(arguments, i). length arguments - i)") auto

declare polyLoop.simps [simp del]

definition fillPoly :: "real list \<Rightarrow> cmd list" where
  "fillPoly arguments =
     (if length arguments < 6 then []
      else [BeginPath, MoveTo (arguments ! 0) (arguments ! 1)]
           @ polyLoop arguments 2 @ [ClosePath, Fill])"

definition strokePoly :: "real list \<Rightarrow> cmd list" where
  "strokePoly arguments =
     (if length arguments < 4 then []
      else [BeginPath, MoveTo (arguments ! 0) (arguments ! 1)]
           @ polyLoop arguments 2 @ [ClosePath, Stroke])"

definition fillOval :: "real \<Rightarrow> real \<Rightarrow> real \<Rightarrow> real \<Rightarrow> cmd list" where
  "fillOval x y horizontalRadius verticalRadius =
     [Save, Translate x y, Scale horizontalRadius verticalRadius,
      BeginPath, Arc 0 0 1 0 (2 * pi) False, Restore, Fill]"

definition strokeOval :: "real \<Rightarrow> real \<Rightarrow> real \<Rightarrow> real \<Rightarrow> cmd list" where
  "strokeOval x y horizontalRadius verticalRadius =
     [Save, Translate x y, Scale horizontalRadius verticalRadius,
      BeginPath, Arc 0 0 1 0 (2 * pi) False, Restore, Stroke]"

section \<open>Reading the helpers' arguments as vertices\<close>

text \<open>
  The complete \<open>(x, y)\<close> pairs of an argument list, in order; a last argument without a
  partner belongs to no pair. This is the reading of the argument list in the comment of
  \<^verbatim>\<open>addGraphicsContextExtras\<close> (\<^verbatim>\<open>fillPoly(x1,y1,x2,y2,...)\<close>), against which the loop
  is compared.
\<close>

fun vertices :: "real list \<Rightarrow> (real \<times> real) list" where
  "vertices (a # b # rest) = (a, b) # vertices rest"
| "vertices rest = []"

text \<open>The closed polygon through a list of vertices: the path calls, then the paint call.\<close>

fun closedPolygon :: "(real \<times> real) list \<Rightarrow> cmd \<Rightarrow> cmd list" where
  "closedPolygon [] paint = []"
| "closedPolygon (v # vs) paint =
     [BeginPath, MoveTo (fst v) (snd v)] @ map (\<lambda>w. LineTo (fst w) (snd w)) vs
     @ [ClosePath, paint]"

section \<open>The host's drawing surface\<close>

text \<open>
  Modelled from the spec: the 2D context that the browser supplies (\<^verbatim>\<open>save\<close>,
  \<^verbatim>\<open>restore\<close>, \<^verbatim>\<open>translate\<close>, \<^verbatim>\<open>scale\<close>, path construction, \<^verbatim>\<open>fill\<close>, \<^verbatim>\<open>stroke\<close>) is not
  part of the repository. The spec describes it as a surface with a current transform that
  \<^verbatim>\<open>save\<close> and \<^verbatim>\<open>restore\<close> scope, under which path construction takes place, while the
  paint operation uses the transform in force when it is issued. A transform
  \<open>(a, b, c, d, e, f)\<close> maps \<open>(x, y)\<close> to \<open>(a x + c y + e, b x + d y + f)\<close>.
\<close>

type_synonym transform = "real \<times> real \<times> real \<times> real \<times> real \<times> real"

definition identity_transform :: transform where
  "identity_transform = (1, 0, 0, 1, 0, 0)"

fun apply_transform :: "transform \<Rightarrow> real \<times> real \<Rightarrow> real \<times> real" where
  "apply_transform (a, b, c, d, e, f) (x, y) = (a * x + c * y + e, b * x + d * y + f)"

fun host_translate :: "real \<Rightarrow> real \<Rightarrow> transform \<Rightarrow> transform" where
  "host_translate tx ty (a, b, c, d, e, f) = (a, b, c, d, a * tx + c * ty + e, b * tx + d * ty + f)"

fun host_scale :: "real \<Rightarrow> real \<Rightarrow> transform \<Rightarrow> transform" where
  "host_scale sx sy (a, b, c, d, e, f) = (a * sx, b * sx, c * sy, d * sy, e, f)"

text \<open>
  A piece of the current path, in surface coordinates. An arc keeps the transform under
  which it was constructed, with its centre, radius and the two angles.
\<close>

datatype seg =
    SegMove "real \<times> real"
  | SegLine "real \<times> real"
  | SegArc transform real real real real real bool
  | SegClose

datatype paint = Filled string | Stroked | Cleared

text \<open>A mark on the surface: how it was painted, its path, and the transform in force at the paint call.\<close>

datatype mark = Mark paint "seg list" transform

record surface =
  ctm :: transform
  fill_style :: string
  saved :: "(transform \<times> string) list"
  current_path :: "seg list"
  marks :: "mark list"

definition fresh_surface :: surface where
  "fresh_surface =
     \<lparr>ctm = identity_transform, fill_style = ''#000000'', saved = [],
      current_path = [], marks = []\<rparr>"

definition rect_path :: "transform \<Rightarrow> real \<Rightarrow> real \<Rightarrow> real \<Rightarrow> real \<Rightarrow> seg list" where
  "rect_path m x y w h =
     [SegMove (apply_transform m (x, y)), SegLine (apply_transform m (x + w, y)),
      SegLine (apply_transform m (x + w, y + h)), SegLine (apply_transform m (x, y + h)),
      SegClose]"

fun host_step :: "cmd \<Rightarrow> surface \<Rightarrow> surface" where
  "host_step (SetFillStyle c) u = u\<lparr>fill_style := c\<rparr>"
| "host_step (ClearRect x y w h) u =
     u\<lparr>marks := marks u @ [Mark Cleared (rect_path (ctm u) x y w h) (ctm u)]\<rparr>"
| "host_step (FillRect x y w h) u =
     u\<lparr>marks := marks u @ [Mark (Filled (fill_style u)) (rect_path (ctm u) x y w h) (ctm u)]\<rparr>"
| "host_step (StrokeRect x y w h) u =
     u\<lparr>marks := marks u @ [Mark Stroked (rect_path (ctm u) x y w h) (ctm u)]\<rparr>"
| "host_step BeginPath u = u\<lparr>current_path := []\<rparr>"
| "host_step (MoveTo x y) u =
     u\<lparr>current_path := current_path u @ [SegMove (apply_transform (ctm u) (x, y))]\<rparr>"
| "host_step (LineTo x y) u =
     u\<lparr>current_path := current_path u @ [SegLine (apply_transform (ctm u) (x, y))]\<rparr>"
| "host_step (Arc x y r a0 a1 ccw) u =
     u\<lparr>current_path := current_path u @ [SegArc (ctm u) x y r a0 a1 ccw]\<rparr>"
| "host_step ClosePath u = u\<lparr>current_path := current_path u @ [SegClose]\<rparr>"
| "host_step Fill u =
     u\<lparr>marks := marks u @ [Mark (Filled (fill_style u)) (current_path u) (ctm u)]\<rparr>"
| "host_step Stroke u = u\<lparr>marks := marks u @ [Mark Stroked (current_path u) (ctm u)]\<rparr>"
| "host_step Save u = u\<lparr>saved := (ctm u, fill_style u) # saved u\<rparr>"
| "host_step Restore u =
     (case saved u of [] \<Rightarrow> u
      | top_entry # rest \<Rightarrow> u\<lparr>ctm := fst top_entry, fill_style := snd top_entry, saved := rest\<rparr>)"
| "host_step (Translate tx ty) u = u\<lparr>ctm := host_translate tx ty (ctm u)\<rparr>"
| "host_step (Scale sx sy) u = u\<lparr>ctm := host_scale sx sy (ctm u)\<rparr>"

definition host_run :: "cmd list \<Rightarrow> surface \<Rightarrow> surface" where
  "host_run cs u = fold host_step cs u"

text \<open>The point of an arc at the angle \<open>t\<close>, and the set of the points it goes through.\<close>

definition arc_point :: "transform \<Rightarrow> real \<Rightarrow> real \<Rightarrow> real \<Rightarrow> real \<Rightarrow> real \<times> real" where
  "arc_point m x y r t = apply_transform m (x + r * cos t, y + r * sin t)"

definition arc_points :: "transform \<Rightarrow> real \<Rightarrow> real \<Rightarrow> real \<Rightarrow> real \<Rightarrow> real \<Rightarrow> (real \<times> real) set" where
  "arc_points m x y r a0 a1 = arc_point m x y r ` {a0..a1}"

section \<open>Vocabulary of the properties\<close>

text \<open>The calls that paint: they change pixels of the surface.\<close>

fun isPaint :: "cmd \<Rightarrow> bool" where
  "isPaint (ClearRect x y w h) = True"
| "isPaint (FillRect x y w h) = True"
| "isPaint (StrokeRect x y w h) = True"
| "isPaint Fill = True"
| "isPaint Stroke = True"
| "isPaint c = False"

text \<open>The two listeners that \<^verbatim>\<open>doMouseDown\<close> registers on \<^verbatim>\<open>document\<close>.\<close>

definition moveListener :: "string \<times> handler \<times> bool" where
  "moveListener = (''mousemove'', DoMouseMove, False)"

definition upListener :: "string \<times> handler \<times> bool" where
  "upListener = (''mouseup'', DoMouseUp, False)"

text \<open>
  Two events that differ at most in what the two controls show when they are delivered:
  same type, same mouse event, same bounding rectangle, same random numbers.
\<close>

fun sameButControls :: "string \<times> env \<times> mouse_event \<Rightarrow> string \<times> env \<times> mouse_event \<Rightarrow> bool" where
  "sameButControls (ty, env, evt) (ty', env', evt') =
     (ty = ty' \<and> evt = evt' \<and> rect_left env = rect_left env' \<and> rect_top env = rect_top env'
      \<and> randoms env = randoms env')"

text \<open>
  Inputs of the scenarios: a mouse event with a button at a position of the window, and
  the surroundings of a handler when the canvas is at the origin of the window and the
  controls show the colour \<open>c\<close> and the shape \<open>sh\<close>.
\<close>

definition mouseAt :: "int \<Rightarrow> real \<Rightarrow> real \<Rightarrow> mouse_event" where
  "mouseAt b x y = \<lparr>button = b, clientX = x, clientY = y\<rparr>"

definition controls :: "int \<Rightarrow> int \<Rightarrow> env" where
  "controls c sh =
     \<lparr>rect_left = 0, rect_top = 0, colorChoice_value = c, shapeType_value = sh,
      randoms = (0, 0, 0)\<rparr>"

text \<open>The state of the scenarios after a pointer-down at \<open>(50, 50)\<close> with these controls.\<close>

definition armed :: "int \<Rightarrow> int \<Rightarrow> state" where
  "armed c sh = doMouseDown (controls c sh) (mouseAt 0 50 50) (init 800 600)"

text \<open>The listeners on \<^verbatim>\<open>document\<close> are among the two that \<^verbatim>\<open>doMouseDown\<close> registers.\<close>

definition listenersOk :: "state \<Rightarrow> bool" where
  "listenersOk s = (set (docListeners s) \<subseteq> {moveListener, upListener})"

text \<open>While a drag is in progress, the previous position is defined.\<close>

definition positionsOk :: "state \<Rightarrow> bool" where
  "positionsOk s = (dragging s \<longrightarrow> prevX s \<noteq> None \<and> prevY s \<noteq> None)"

text \<open>
  What holds of a state \<open>s\<close> during the drag that started in the state \<open>b\<close>: the drag is
  in progress, the two selections are those of \<open>b\<close>, the call log has only grown, and with
  the selection 1 every fill style assigned since is \<^verbatim>\<open>"red"\<close>.
\<close>

definition inDrag :: "state \<Rightarrow> state \<Rightarrow> bool" where
  "inDrag b s =
     (dragging s \<and> colorChoice s = colorChoice b \<and> shapeType s = shapeType b
      \<and> (\<exists>new. graphics s = graphics b @ new
            \<and> (colorChoice b = Some 1 \<longrightarrow> (\<forall>c. SetFillStyle c \<in> set new \<longrightarrow> c = ''red''))))"

section \<open>The polygon loop reads the arguments pair by pair\<close>

lemma polyLoop_vertices:
  "polyLoop arguments i = map (\<lambda>w. LineTo (fst w) (snd w)) (vertices (drop i arguments))"
proof (induction arguments i rule: polyLoop.induct)
  case (1 arguments i)
  show ?case
  proof (cases "i + 1 < length arguments")
    case True
    then have d: "drop i arguments = arguments ! i # arguments ! (i + 1) # drop (i + 2) arguments"
      by (metis Cons_nth_drop_Suc Suc_eq_plus1 add_2_eq_Suc' add_lessD1)
    have "polyLoop arguments i = LineTo (arguments ! i) (arguments ! (i + 1)) # polyLoop arguments (i + 2)"
      using True by (subst polyLoop.simps) simp
    with True 1 show ?thesis
      by (simp only: d vertices.simps list.map fst_conv snd_conv)
  next
    case False
    then have "length (drop i arguments) \<le> 1" by simp
    then have "vertices (drop i arguments) = []"
      by (cases "drop i arguments" rule: vertices.cases) auto
    moreover have "polyLoop arguments i = []"
      using False by (subst polyLoop.simps) simp
    ultimately show ?thesis by simp
  qed
qed

lemma vertices_head:
  "2 \<le> length arguments \<Longrightarrow>
     vertices arguments = (arguments ! 0, arguments ! 1) # vertices (drop 2 arguments)"
  by (cases arguments rule: vertices.cases) auto

lemma fillPoly_closed:
  "fillPoly arguments = (if length arguments < 6 then [] else closedPolygon (vertices arguments) Fill)"
  by (simp add: fillPoly_def polyLoop_vertices vertices_head)

lemma strokePoly_closed:
  "strokePoly arguments = (if length arguments < 4 then [] else closedPolygon (vertices arguments) Stroke)"
  by (simp add: strokePoly_def polyLoop_vertices vertices_head)

lemma vertices_snoc_even:
  "even (length xs) \<Longrightarrow> vertices (xs @ [z]) = vertices xs"
  by (induction xs rule: vertices.induct) auto

lemma vertices_length: "length (vertices xs) = length xs div 2"
  by (induction xs rule: vertices.induct) auto

lemma vertices_butlast_odd:
  "odd (length xs) \<Longrightarrow> vertices xs = vertices (butlast xs)"
  by (induction xs rule: vertices.induct) auto

section \<open>The loop of the star\<close>

lemma starLoop_map:
  "starLoop x y i =
     map (\<lambda>k. LineTo (real_of_int x + 50 * cos (real k * 2 * pi / 13))
                      (real_of_int y + 50 * sin (real k * 2 * pi / 13))) [i..<14]"
proof (induction x y i rule: starLoop.induct)
  case (1 x y i)
  show ?case
  proof (cases "i \<le> numOfVertices")
    case True
    then have u: "[i..<14] = i # [Suc i..<14]"
      by (simp add: numOfVertices_def upt_conv_Cons)
    have "starLoop x y i =
        LineTo (real_of_int x + 50 * cos (real i * 2 * pi / 13))
               (real_of_int y + 50 * sin (real i * 2 * pi / 13)) # starLoop x y (Suc i)"
      using True by (subst starLoop.simps) (simp add: size_star_def numOfVertices_def)
    with 1 [OF True refl refl] show ?thesis
      by (simp only: u list.map)
  next
    case False
    then have "[i..<14] = []" by (simp add: numOfVertices_def)
    moreover have "starLoop x y i = []"
      using False by (subst starLoop.simps) simp
    ultimately show ?thesis by simp
  qed
qed

lemma doMouseMove_qualifying:
  assumes "dragging s" "prevX s = Some px" "prevY s = Some py"
    and "x = Math_round (clientX evt - rect_left env)"
    and "y = Math_round (clientY evt - rect_top env)"
    and "3 \<le> \<bar>x - px\<bar> + \<bar>y - py\<bar>"
  shows "doMouseMove env evt s =
     s\<lparr>graphics := graphics s @ colorSwitch (colorChoice s) (randoms env)
                      @ shapeSwitch (shapeType s) x y,
        prevX := Some x, prevY := Some y\<rparr>"
  using assms by (simp add: doMouseMove_def tooClose_def Let_def)

lemma doMouseMove_close:
  assumes "dragging s" "prevX s = Some px" "prevY s = Some py"
    and "x = Math_round (clientX evt - rect_left env)"
    and "y = Math_round (clientY evt - rect_top env)"
    and "\<bar>x - px\<bar> + \<bar>y - py\<bar> < 3"
  shows "doMouseMove env evt s = s"
  using assms by (simp add: doMouseMove_def tooClose_def Let_def)


section \<open>Invariants of the reachable states\<close>

lemma doMouseDown_listenersOk: "listenersOk s \<Longrightarrow> listenersOk (doMouseDown env evt s)"
  by (auto simp: listenersOk_def doMouseDown_def addEventListener_def moveListener_def
      upListener_def Let_def)

lemma doMouseMove_docListeners [simp]: "docListeners (doMouseMove env evt s) = docListeners s"
  by (simp add: doMouseMove_def Let_def)

lemma doMouseUp_listenersOk:
  assumes "listenersOk s"
  shows "listenersOk (doMouseUp env evt s)"
proof -
  have "set (remove1 a (remove1 b xs)) \<subseteq> set xs" for a b :: "string \<times> handler \<times> bool" and xs
    using set_remove1_subset [of a "remove1 b xs"] set_remove1_subset [of b xs] by blast
  then have "set (docListeners (doMouseUp env evt s)) \<subseteq> set (docListeners s)"
    by (simp add: doMouseUp_def removeEventListener_def)
  with assms show ?thesis
    unfolding listenersOk_def by blast
qed

lemma doMouseMove_listenersOk: "listenersOk s \<Longrightarrow> listenersOk (doMouseMove env evt s)"
  by (simp add: listenersOk_def)

lemma call_listenersOk: "listenersOk s \<Longrightarrow> listenersOk (call h env evt s)"
  by (cases h) (simp_all add: doMouseDown_listenersOk doMouseUp_listenersOk doMouseMove_listenersOk)

lemma runListeners_listenersOk:
  "listenersOk s \<Longrightarrow> listenersOk (runListeners ty env evt ls s)"
  by (induction ls arbitrary: s) (simp_all add: call_listenersOk)

lemma fire_listenersOk: "listenersOk s \<Longrightarrow> listenersOk (fire e s)"
  by (cases e) (simp add: doMouseDown_listenersOk dispatchDocument_def runListeners_listenersOk)

lemma reachable_listenersOk: "reachable s \<Longrightarrow> listenersOk s"
  by (induction rule: reachable.induct) (simp_all add: fire_listenersOk, simp add: listenersOk_def init_def)

lemma doMouseDown_positionsOk: "positionsOk s \<Longrightarrow> positionsOk (doMouseDown env evt s)"
  by (simp add: positionsOk_def doMouseDown_def addEventListener_def Let_def)

lemma doMouseMove_positionsOk: "positionsOk s \<Longrightarrow> positionsOk (doMouseMove env evt s)"
  by (simp add: positionsOk_def doMouseMove_def Let_def)

lemma doMouseUp_positionsOk: "positionsOk s \<Longrightarrow> positionsOk (doMouseUp env evt s)"
  by (simp add: positionsOk_def doMouseUp_def removeEventListener_def)

lemma call_positionsOk: "positionsOk s \<Longrightarrow> positionsOk (call h env evt s)"
  by (cases h) (simp_all add: doMouseDown_positionsOk doMouseMove_positionsOk doMouseUp_positionsOk)

lemma runListeners_positionsOk:
  "positionsOk s \<Longrightarrow> positionsOk (runListeners ty env evt ls s)"
  by (induction ls arbitrary: s) (simp_all add: call_positionsOk)

lemma fire_positionsOk: "positionsOk s \<Longrightarrow> positionsOk (fire e s)"
  by (cases e) (simp add: doMouseDown_positionsOk dispatchDocument_def runListeners_positionsOk)

lemma reachable_positionsOk: "reachable s \<Longrightarrow> positionsOk s"
  by (induction rule: reachable.induct) (simp_all add: fire_positionsOk, simp add: positionsOk_def init_def)

lemma run_Nil [simp]: "run [] s = s"
  by (simp add: run_def)

lemma run_Cons [simp]: "run (e # evs) s = run evs (fire e s)"
  by (simp add: run_def)

lemma reachable_run: "reachable s \<Longrightarrow> reachable (run evs s)"
  by (induction evs arbitrary: s) (simp_all add: reachable_fire)

section \<open>The ovals on the host's surface\<close>

lemma host_fillOval:
  "host_run (fillOval x y rh rv) u =
     u\<lparr>current_path := [SegArc (host_scale rh rv (host_translate x y (ctm u))) 0 0 1 0 (2 * pi) False],
       marks := marks u @ [Mark (Filled (fill_style u))
          [SegArc (host_scale rh rv (host_translate x y (ctm u))) 0 0 1 0 (2 * pi) False] (ctm u)]\<rparr>"
  by (simp add: host_run_def fillOval_def)

lemma host_strokeOval:
  "host_run (strokeOval x y rh rv) u =
     u\<lparr>current_path := [SegArc (host_scale rh rv (host_translate x y (ctm u))) 0 0 1 0 (2 * pi) False],
       marks := marks u @ [Mark Stroked
          [SegArc (host_scale rh rv (host_translate x y (ctm u))) 0 0 1 0 (2 * pi) False] (ctm u)]\<rparr>"
  by (simp add: host_run_def strokeOval_def)

lemma oval_transform:
  "host_scale rh rv (host_translate x y identity_transform) = (rh, 0, 0, rv, x, y)"
  by (simp add: identity_transform_def)

lemma oval_point:
  "arc_point (rh, 0, 0, rv, x, y) 0 0 1 t = (x + rh * cos t, y + rv * sin t)"
  by (simp add: arc_point_def algebra_simps)

lemma oval_box:
  assumes "p \<in> arc_points (10, 0, 0, 20, x, y) 0 0 1 0 (2 * pi)"
  shows "\<bar>fst p - x\<bar> \<le> 10 \<and> \<bar>snd p - y\<bar> \<le> 20"
proof -
  from assms obtain t where p: "p = (x + 10 * cos t, y + 20 * sin t)"
    by (auto simp: arc_points_def oval_point)
  have "\<bar>cos t\<bar> \<le> 1" "\<bar>sin t\<bar> \<le> 1" by (rule abs_cos_le_one, rule abs_sin_le_one)
  then show ?thesis by (simp add: p abs_mult)
qed

lemma oval_extremes:
  "(x + 10, y) \<in> arc_points (10, 0, 0, 20, x, y) 0 0 1 0 (2 * pi)"
  "(x - 10, y) \<in> arc_points (10, 0, 0, 20, x, y) 0 0 1 0 (2 * pi)"
  "(x, y + 20) \<in> arc_points (10, 0, 0, 20, x, y) 0 0 1 0 (2 * pi)"
  "(x, y - 20) \<in> arc_points (10, 0, 0, 20, x, y) 0 0 1 0 (2 * pi)"
proof -
  have a: "0 \<in> {0..2 * pi}" "pi \<in> {0..2 * pi}" "pi / 2 \<in> {0..2 * pi}" "3 / 2 * pi \<in> {0..2 * pi}"
    using pi_gt_zero by auto
  have "arc_point (10, 0, 0, 20, x, y) 0 0 1 0 = (x + 10, y)" by (simp add: oval_point)
  with a(1) show "(x + 10, y) \<in> arc_points (10, 0, 0, 20, x, y) 0 0 1 0 (2 * pi)"
    unfolding arc_points_def by (metis imageI)
  have "arc_point (10, 0, 0, 20, x, y) 0 0 1 pi = (x - 10, y)" by (simp add: oval_point)
  with a(2) show "(x - 10, y) \<in> arc_points (10, 0, 0, 20, x, y) 0 0 1 0 (2 * pi)"
    unfolding arc_points_def by (metis imageI)
  have "arc_point (10, 0, 0, 20, x, y) 0 0 1 (pi / 2) = (x, y + 20)" by (simp add: oval_point)
  with a(3) show "(x, y + 20) \<in> arc_points (10, 0, 0, 20, x, y) 0 0 1 0 (2 * pi)"
    unfolding arc_points_def by (metis imageI)
  have "arc_point (10, 0, 0, 20, x, y) 0 0 1 (3 / 2 * pi) = (x, y - 20)"
    using sin_3over2_pi cos_3over2_pi by (simp add: oval_point)
  with a(4) show "(x, y - 20) \<in> arc_points (10, 0, 0, 20, x, y) 0 0 1 0 (2 * pi)"
    unfolding arc_points_def by (metis imageI)
qed

section \<open>A drag as a sequence of events\<close>

lemma starLoop_no_style: "SetFillStyle c \<notin> set (starLoop x y i)"
proof (induction x y i rule: starLoop.induct)
  case (1 x y i)
  show ?case
  proof (cases "i \<le> numOfVertices")
    case True
    with 1 [OF True refl refl] show ?thesis
      by (subst starLoop.simps) (simp add: Let_def)
  next
    case False
    then show ?thesis by (subst starLoop.simps) simp
  qed
qed

lemma shapeSwitch_no_style: "SetFillStyle c \<notin> set (shapeSwitch sh x y)"
  by (simp add: shapeSwitch_def starLoop_no_style)

lemma colorSwitch_red: "colorSwitch (Some 1) rnd = [SetFillStyle ''red'']"
  by (simp add: colorSwitch_def)

lemma inDrag_refl: "dragging b \<Longrightarrow> inDrag b b"
  by (simp add: inDrag_def)

lemma doMouseMove_inDrag:
  assumes "inDrag b s"
  shows "inDrag b (doMouseMove env evt s)"
proof -
  from assms obtain new where d: "dragging s" "colorChoice s = colorChoice b" "shapeType s = shapeType b"
    and g: "graphics s = graphics b @ new"
    and r: "colorChoice b = Some 1 \<longrightarrow> (\<forall>c. SetFillStyle c \<in> set new \<longrightarrow> c = ''red'')"
    by (auto simp: inDrag_def)
  let ?x = "Math_round (clientX evt - rect_left env)"
  let ?y = "Math_round (clientY evt - rect_top env)"
  show ?thesis
  proof (cases "tooClose ?x ?y (prevX s) (prevY s)")
    case True
    then have "doMouseMove env evt s = s" by (simp add: doMouseMove_def Let_def)
    with assms show ?thesis by simp
  next
    case False
    let ?add = "colorSwitch (colorChoice s) (randoms env) @ shapeSwitch (shapeType s) ?x ?y"
    from False d have m: "doMouseMove env evt s =
        s\<lparr>graphics := graphics s @ ?add, prevX := Some ?x, prevY := Some ?y\<rparr>"
      by (simp add: doMouseMove_def Let_def)
    have "colorChoice b = Some 1 \<longrightarrow> (\<forall>c. SetFillStyle c \<in> set (new @ ?add) \<longrightarrow> c = ''red'')"
      using r d(2) by (auto simp: colorSwitch_red shapeSwitch_no_style)
    moreover have "graphics (doMouseMove env evt s) = graphics b @ (new @ ?add)"
      by (simp add: m g)
    ultimately show ?thesis
      unfolding inDrag_def using d by (simp add: m)
  qed
qed

lemma runListeners_inDrag:
  assumes "set ls \<subseteq> {moveListener, upListener}" "ty \<noteq> ''mouseup''" "inDrag b s"
  shows "inDrag b (runListeners ty env evt ls s)"
  using assms
proof (induction ls arbitrary: s)
  case Nil
  then show ?case by simp
next
  case (Cons l ls)
  from Cons.prems(1) have l: "l = moveListener \<or> l = upListener" and ls: "set ls \<subseteq> {moveListener, upListener}"
    by auto
  show ?case
  proof (cases "fst l = ty \<and> l \<in> set (docListeners s)")
    case True
    with l Cons.prems(2) have "l = moveListener" by (auto simp: upListener_def)
    then have "call (fst (snd l)) env evt s = doMouseMove env evt s" by (simp add: moveListener_def)
    with True Cons.IH [OF ls Cons.prems(2) doMouseMove_inDrag [OF Cons.prems(3)]]
    show ?thesis by simp
  next
    case False
    with Cons.IH [OF ls Cons.prems(2) Cons.prems(3)] show ?thesis by auto
  qed
qed

lemma fire_inDrag:
  assumes "listenersOk s" "fst e \<noteq> ''mouseup''" "inDrag b s"
  shows "inDrag b (fire e s)"
proof (cases e)
  case (fields ty env evt)
  show ?thesis
  proof (cases "ty = ''mousedown''")
    case True
    from assms(3) have "dragging s" by (simp add: inDrag_def)
    then have "doMouseDown env evt s = s" by (simp add: doMouseDown_def)
    with True fields assms(3) show ?thesis by simp
  next
    case False
    from assms(1) have "set (docListeners s) \<subseteq> {moveListener, upListener}"
      by (simp add: listenersOk_def)
    from runListeners_inDrag [OF this _ assms(3), of ty env evt] assms(2) fields False
    show ?thesis by (simp add: dispatchDocument_def)
  qed
qed

lemma run_inDrag:
  assumes "listenersOk s" "\<forall>e\<in>set evs. fst e \<noteq> ''mouseup''" "inDrag b s"
  shows "inDrag b (run evs s)"
  using assms
proof (induction evs arbitrary: s)
  case Nil
  then show ?case by simp
next
  case (Cons e evs)
  from Cons.prems have "inDrag b (fire e s)" "listenersOk (fire e s)"
    by (simp_all add: fire_inDrag fire_listenersOk)
  with Cons.IH Cons.prems(2) show ?case by simp
qed

subsection \<open>The controls are not read during a drag\<close>

lemma doMouseMove_controls:
  assumes "rect_left env = rect_left env'" "rect_top env = rect_top env'" "randoms env = randoms env'"
  shows "doMouseMove env evt s = doMouseMove env' evt s"
  unfolding doMouseMove_def by (simp only: assms)

lemma doMouseUp_controls: "doMouseUp env evt s = doMouseUp env' evt s"
  by (simp add: doMouseUp_def)

lemma runListeners_controls:
  assumes "set ls \<subseteq> {moveListener, upListener}"
    and "rect_left env = rect_left env'" "rect_top env = rect_top env'" "randoms env = randoms env'"
  shows "runListeners ty env evt ls s = runListeners ty env' evt ls s"
  using assms(1)
proof (induction ls arbitrary: s)
  case Nil
  then show ?case by simp
next
  case (Cons l ls)
  then have l: "l = moveListener \<or> l = upListener" and ls: "set ls \<subseteq> {moveListener, upListener}"
    by auto
  from l have "call (fst (snd l)) env evt s = call (fst (snd l)) env' evt s"
    using doMouseMove_controls [OF assms(2-4)] doMouseUp_controls
    by (auto simp: moveListener_def upListener_def)
  with Cons.IH [OF ls] show ?case by simp
qed

lemma fire_controls:
  assumes "listenersOk s" "dragging s" "sameButControls e e'"
  shows "fire e s = fire e' s"
proof (cases e)
  case e: (fields ty env evt)
  show ?thesis
  proof (cases e')
    case e': (fields ty' env' evt')
    from assms(3) e e' have same: "ty' = ty" "evt' = evt" "rect_left env = rect_left env'"
      "rect_top env = rect_top env'" "randoms env = randoms env'" by auto
    from assms(1) have sub: "set (docListeners s) \<subseteq> {moveListener, upListener}"
      by (simp add: listenersOk_def)
    from assms(2) have "doMouseDown env evt s = s" "doMouseDown env' evt s = s"
      by (simp_all add: doMouseDown_def)
    with runListeners_controls [OF sub same(3-5), of ty evt s]
    show ?thesis by (simp add: e e' same dispatchDocument_def)
  qed
qed

lemma run_controls:
  assumes "listenersOk s" "inDrag b s" "\<forall>e\<in>set evs. fst e \<noteq> ''mouseup''"
    "list_all2 sameButControls evs evs'"
  shows "run evs' s = run evs s"
  using assms(4) assms(1-3)
proof (induction evs evs' arbitrary: s rule: list_all2_induct)
  case Nil
  then show ?case by simp
next
  case (Cons e evs e' evs')
  from Cons.prems have d: "dragging s" by (simp add: inDrag_def)
  have f: "fire e' s = fire e s"
    using fire_controls [OF Cons.prems(1) d Cons.hyps(1)] by simp
  from Cons.prems have "inDrag b (fire e s)" "listenersOk (fire e s)"
    by (simp_all add: fire_inDrag fire_listenersOk)
  with Cons.IH Cons.prems(3) f show ?case by simp
qed

section \<open>The scenarios' states\<close>

lemma armed_state:
  "armed c sh =
     \<lparr>dragging = True, startX = Some 50, startY = Some 50, prevX = Some 50, prevY = Some 50,
      colorChoice = Some c, shapeType = Some sh,
      graphics = [SetFillStyle ''white'', FillRect 0 0 800 600],
      docListeners = [moveListener, upListener]\<rparr>"
  by (simp add: armed_def doMouseDown_def controls_def mouseAt_def init_def Math_round_def
      addEventListener_def moveListener_def upListener_def Let_def)

lemma reachable_armed: "reachable (armed c sh)"
proof -
  have "reachable (fire (''mousedown'', controls c sh, mouseAt 0 50 50) (init 800 600))"
    by (rule reachable_fire [OF reachable_init])
  then show ?thesis by (simp add: armed_def)
qed

lemma round_at [simp]:
  "Math_round (clientX (mouseAt b x y) - rect_left (controls c sh)) = Math_round x"
  "Math_round (clientY (mouseAt b x y) - rect_top (controls c sh)) = Math_round y"
  by (simp_all add: mouseAt_def controls_def)

lemma round_samples [simp]:
  "Math_round 50 = 50" "Math_round 51 = 51" "Math_round 55 = 55" "Math_round 60 = 60"
  by (simp_all add: Math_round_def)


section \<open>The properties of the specification\<close>

subsection \<open>Polygons\<close>

text \<open>
  Claim C6. \<^verbatim>\<open>fillPoly\<close> issues no call when it has fewer than 6 arguments, and
  \<^verbatim>\<open>strokePoly\<close> none when it has fewer than 4. Otherwise the path starts at the first
  vertex, goes through the following vertices in order, is closed by \<^verbatim>\<open>closePath\<close>, and
  only then filled (respectively stroked).
\<close>

theorem poly_guard_and_close:
  "(length arguments < 6 \<longrightarrow> fillPoly arguments = [])
   \<and> (6 \<le> length arguments \<longrightarrow>
        fillPoly arguments =
          [BeginPath, MoveTo (arguments ! 0) (arguments ! 1)]
          @ map (\<lambda>v. LineTo (fst v) (snd v)) (vertices (drop 2 arguments))
          @ [ClosePath, Fill])
   \<and> (length arguments < 4 \<longrightarrow> strokePoly arguments = [])
   \<and> (4 \<le> length arguments \<longrightarrow>
        strokePoly arguments =
          [BeginPath, MoveTo (arguments ! 0) (arguments ! 1)]
          @ map (\<lambda>v. LineTo (fst v) (snd v)) (vertices (drop 2 arguments))
          @ [ClosePath, Stroke])"
  by (simp add: fillPoly_def strokePoly_def polyLoop_vertices)


text \<open>
  The scenario of the specification: \<^verbatim>\<open>fillPoly(0,0,10,0,5,10)\<close> paints a closed triangle
  and \<^verbatim>\<open>fillPoly(0,0,10,0)\<close> does nothing.
\<close>

theorem poly_guard_and_close_witness:
  "fillPoly [0, 0, 10, 0, 5, 10] = [BeginPath, MoveTo 0 0, LineTo 10 0, LineTo 5 10, ClosePath, Fill]
   \<and> fillPoly [0, 0, 10, 0] = []
   \<and> strokePoly [0, 0, 10, 0] = [BeginPath, MoveTo 0 0, LineTo 10 0, ClosePath, Stroke]
   \<and> strokePoly [0, 0] = []"
  using poly_guard_and_close [of "[0, 0, 10, 0, 5, 10]"] poly_guard_and_close [of "[0, 0, 10, 0]"]
    poly_guard_and_close [of "[0, 0]"]
  by simp

text \<open>
  Claim C10. With an odd number of arguments (at least 6 for \<^verbatim>\<open>fillPoly\<close>, at least 4
  for \<^verbatim>\<open>strokePoly\<close>) the call is not rejected: it issues the very calls it issues
  without its last argument, that is the closed polygon through the complete pairs.
\<close>

theorem poly_odd_argument_ignored:
  "(odd (length arguments) \<and> 6 \<le> length arguments \<longrightarrow>
      fillPoly arguments = fillPoly (butlast arguments)
      \<and> fillPoly arguments =
          [BeginPath, MoveTo (arguments ! 0) (arguments ! 1)]
          @ map (\<lambda>v. LineTo (fst v) (snd v)) (vertices (drop 2 (butlast arguments)))
          @ [ClosePath, Fill])
   \<and> (odd (length arguments) \<and> 4 \<le> length arguments \<longrightarrow>
      strokePoly arguments = strokePoly (butlast arguments)
      \<and> strokePoly arguments =
          [BeginPath, MoveTo (arguments ! 0) (arguments ! 1)]
          @ map (\<lambda>v. LineTo (fst v) (snd v)) (vertices (drop 2 (butlast arguments)))
          @ [ClosePath, Stroke])"
proof -
  have v: "vertices (drop 2 arguments) = vertices (drop 2 (butlast arguments))"
    if "odd (length arguments)" "4 \<le> length arguments"
  proof -
    from that have "odd (length (drop 2 arguments))" by simp
    then have "vertices (drop 2 arguments) = vertices (butlast (drop 2 arguments))"
      by (rule vertices_butlast_odd)
    then show ?thesis by (simp only: butlast_drop)
  qed
  have n: "butlast arguments ! 0 = arguments ! 0" "butlast arguments ! 1 = arguments ! 1"
    if "4 \<le> length arguments"
    using that by (simp_all add: nth_butlast)
  have f: "6 \<le> length (butlast arguments)" if "odd (length arguments)" "6 \<le> length arguments"
    using that by (cases "length arguments = 6") auto
  have g: "4 \<le> length (butlast arguments)" if "odd (length arguments)" "4 \<le> length arguments"
    using that by (cases "length arguments = 4") auto
  show ?thesis
  proof (intro conjI impI)
    assume a: "odd (length arguments) \<and> 6 \<le> length arguments"
    then have b: "\<not> length arguments < 6" "\<not> length (butlast arguments) < 6"
      using f by auto
    from a have v': "vertices (drop 2 arguments) = vertices (drop 2 (butlast arguments))"
      and n': "butlast arguments ! 0 = arguments ! 0" "butlast arguments ! 1 = arguments ! 1"
      using v n by auto
    show "fillPoly arguments = fillPoly (butlast arguments)"
      unfolding fillPoly_def polyLoop_vertices by (simp only: b if_False v' n')
    show "fillPoly arguments =
          [BeginPath, MoveTo (arguments ! 0) (arguments ! 1)]
          @ map (\<lambda>v. LineTo (fst v) (snd v)) (vertices (drop 2 (butlast arguments)))
          @ [ClosePath, Fill]"
      unfolding fillPoly_def polyLoop_vertices by (simp only: b if_False v')
  next
    assume a: "odd (length arguments) \<and> 4 \<le> length arguments"
    then have b: "\<not> length arguments < 4" "\<not> length (butlast arguments) < 4"
      using g by auto
    from a have v': "vertices (drop 2 arguments) = vertices (drop 2 (butlast arguments))"
      and n': "butlast arguments ! 0 = arguments ! 0" "butlast arguments ! 1 = arguments ! 1"
      using v n by auto
    show "strokePoly arguments = strokePoly (butlast arguments)"
      unfolding strokePoly_def polyLoop_vertices by (simp only: b if_False v' n')
    show "strokePoly arguments =
          [BeginPath, MoveTo (arguments ! 0) (arguments ! 1)]
          @ map (\<lambda>v. LineTo (fst v) (snd v)) (vertices (drop 2 (butlast arguments)))
          @ [ClosePath, Stroke]"
      unfolding strokePoly_def polyLoop_vertices by (simp only: b if_False v')
  qed
qed


text \<open>Seven and five arguments: the last one changes nothing.\<close>

theorem poly_odd_argument_ignored_witness:
  "fillPoly [0, 0, 10, 0, 5, 10, 99] = fillPoly [0, 0, 10, 0, 5, 10]
   \<and> fillPoly [0, 0, 10, 0, 5, 10, 99] =
       [BeginPath, MoveTo 0 0, LineTo 10 0, LineTo 5 10, ClosePath, Fill]
   \<and> strokePoly [0, 0, 10, 0, 7] = strokePoly [0, 0, 10, 0]
   \<and> strokePoly [0, 0, 10, 0, 7] = [BeginPath, MoveTo 0 0, LineTo 10 0, ClosePath, Stroke]"
  using poly_odd_argument_ignored [of "[0, 0, 10, 0, 5, 10, 99]"]
    poly_odd_argument_ignored [of "[0, 0, 10, 0, 7]"]
  by auto

subsection \<open>Ovals\<close>

text \<open>
  Claim C7. \<^verbatim>\<open>fillOval\<close> and \<^verbatim>\<open>strokeOval\<close> issue, in this order: save, translate to
  \<open>(x, y)\<close>, scale by the two radii, begin a path, the arc of the unit circle, restore,
  and only then the paint call. On the host's surface the transform in force at the paint
  call is therefore the one before the helper was called, while the arc was constructed
  under the scaled one. On a fresh surface the arc of \<^verbatim>\<open>fillOval(x,y,10,20)\<close> goes through
  the points \<open>(x + 10 cos t, y + 20 sin t)\<close>: they lie within 10 of \<open>x\<close> horizontally and
  within 20 of \<open>y\<close> vertically, and the four extreme points are reached, so that the shape
  is 20 wide and 40 high around \<open>(x, y)\<close>.
\<close>

theorem oval_restore_before_paint:
  "fillOval x y rh rv =
     [Save, Translate x y, Scale rh rv, BeginPath, Arc 0 0 1 0 (2 * pi) False, Restore, Fill]
   \<and> strokeOval x y rh rv =
     [Save, Translate x y, Scale rh rv, BeginPath, Arc 0 0 1 0 (2 * pi) False, Restore, Stroke]
   \<and> ctm (host_run (fillOval x y rh rv) u) = ctm u
   \<and> ctm (host_run (strokeOval x y rh rv) u) = ctm u
   \<and> marks (host_run (fillOval x y rh rv) u) =
       marks u @ [Mark (Filled (fill_style u))
         [SegArc (host_scale rh rv (host_translate x y (ctm u))) 0 0 1 0 (2 * pi) False] (ctm u)]
   \<and> marks (host_run (strokeOval x y rh rv) u) =
       marks u @ [Mark Stroked
         [SegArc (host_scale rh rv (host_translate x y (ctm u))) 0 0 1 0 (2 * pi) False] (ctm u)]
   \<and> marks (host_run (fillOval x y 10 20) fresh_surface) =
       [Mark (Filled (fill_style fresh_surface))
         [SegArc (10, 0, 0, 20, x, y) 0 0 1 0 (2 * pi) False] identity_transform]
   \<and> arc_point (10, 0, 0, 20, x, y) 0 0 1 t = (x + 10 * cos t, y + 20 * sin t)
   \<and> (\<forall>p \<in> arc_points (10, 0, 0, 20, x, y) 0 0 1 0 (2 * pi).
         \<bar>fst p - x\<bar> \<le> 10 \<and> \<bar>snd p - y\<bar> \<le> 20)
   \<and> {(x - 10, y), (x + 10, y), (x, y - 20), (x, y + 20)}
         \<subseteq> arc_points (10, 0, 0, 20, x, y) 0 0 1 0 (2 * pi)"
proof (intro conjI)
  show "\<forall>p \<in> arc_points (10, 0, 0, 20, x, y) 0 0 1 0 (2 * pi).
         \<bar>fst p - x\<bar> \<le> 10 \<and> \<bar>snd p - y\<bar> \<le> 20"
    using oval_box by blast
  show "{(x - 10, y), (x + 10, y), (x, y - 20), (x, y + 20)}
         \<subseteq> arc_points (10, 0, 0, 20, x, y) 0 0 1 0 (2 * pi)"
    using oval_extremes [of x y] by blast
  show "marks (host_run (fillOval x y 10 20) fresh_surface) =
       [Mark (Filled (fill_style fresh_surface))
         [SegArc (10, 0, 0, 20, x, y) 0 0 1 0 (2 * pi) False] identity_transform]"
    by (simp add: host_fillOval fresh_surface_def identity_transform_def)
qed (simp_all add: host_fillOval host_strokeOval oval_point, simp_all add: fillOval_def strokeOval_def)

text \<open>
  The oval of radii 10 and 20 at \<open>(3, 4)\<close>: its point at the angle \<open>\<pi>\<close> is on the arc and
  within the bounds.
\<close>

theorem oval_restore_before_paint_witness:
  "(3 + 10 * cos pi, 4 + 20 * sin pi) \<in> arc_points (10, 0, 0, 20, 3, 4) 0 0 1 0 (2 * pi)
   \<and> \<bar>fst (3 + 10 * cos pi, 4 + 20 * sin pi) - 3\<bar> \<le> (10 :: real)
   \<and> \<bar>snd (3 + 10 * cos pi, 4 + 20 * sin pi) - 4\<bar> \<le> (20 :: real)
   \<and> fillOval 3 4 10 20 =
     [Save, Translate 3 4, Scale 10 20, BeginPath, Arc 0 0 1 0 (2 * pi) False, Restore, Fill]"
proof -
  have m: "(3 + 10 * cos pi, 4 + 20 * sin pi) \<in> arc_points (10, 0, 0, 20, 3, 4) 0 0 1 0 (2 * pi)"
    using oval_extremes(2) [of 3 4] by simp
  from oval_restore_before_paint [of 3 4 10 20 fresh_surface 0] m show ?thesis
    by simp
qed

subsection \<open>Pointer moves\<close>

text \<open>
  Claim C2. A pointer-move processed while dragging, whose position is at Manhattan
  distance less than 3 from \<open>(prevX, prevY)\<close>, leaves the whole state as it is: no call
  is issued on the context and \<open>prevX\<close>, \<open>prevY\<close> keep their values.
\<close>

theorem move_below_three_is_discarded:
  assumes "dragging s" "prevX s = Some px" "prevY s = Some py"
    and "x = Math_round (clientX evt - rect_left env)"
    and "y = Math_round (clientY evt - rect_top env)"
    and "\<bar>x - px\<bar> + \<bar>y - py\<bar> < 3"
  shows "doMouseMove env evt s = s
         \<and> graphics (doMouseMove env evt s) = graphics s
         \<and> prevX (doMouseMove env evt s) = Some px
         \<and> prevY (doMouseMove env evt s) = Some py"
  using assms doMouseMove_close [OF assms] by simp

text \<open>
  After a pointer-down at \<open>(50, 50)\<close>, a move to \<open>(51, 51)\<close> is at distance 2.
\<close>

theorem move_below_three_is_discarded_witness:
  "dragging (armed 1 0) \<and> prevX (armed 1 0) = Some 50 \<and> prevY (armed 1 0) = Some 50
   \<and> \<bar>Math_round 51 - 50\<bar> + \<bar>Math_round 51 - 50\<bar> < 3
   \<and> doMouseMove (controls 1 0) (mouseAt 0 51 51) (armed 1 0) = armed 1 0
   \<and> graphics (doMouseMove (controls 1 0) (mouseAt 0 51 51) (armed 1 0)) =
       [SetFillStyle ''white'', FillRect 0 0 800 600]
   \<and> prevX (doMouseMove (controls 1 0) (mouseAt 0 51 51) (armed 1 0)) = Some 50
   \<and> prevY (doMouseMove (controls 1 0) (mouseAt 0 51 51) (armed 1 0)) = Some 50"
proof -
  have h: "dragging (armed 1 0)" "prevX (armed 1 0) = Some 50" "prevY (armed 1 0) = Some 50"
    by (simp_all add: armed_state)
  have x: "51 = Math_round (clientX (mouseAt 0 51 51) - rect_left (controls 1 0))"
    and y: "51 = Math_round (clientY (mouseAt 0 51 51) - rect_top (controls 1 0))"
    by simp_all
  have d: "\<bar>51 - 50\<bar> + \<bar>51 - 50\<bar> < (3 :: int)" by simp
  from move_below_three_is_discarded [OF h x y d] h show ?thesis
    by (simp add: armed_state)
qed

text \<open>
  Claim C3. A qualifying pointer-move with the shape selection 1 (star) issues, after the
  colour, \<^verbatim>\<open>beginPath\<close>, then exactly 15 path calls, one \<^verbatim>\<open>moveTo\<close> at the angle 0
  followed by 14 \<^verbatim>\<open>lineTo\<close> at the angles \<open>k 2\<pi> / 13\<close> for \<open>k = 0, ..., 13\<close>, all at radius
  50 around \<open>(x, y)\<close>, then \<^verbatim>\<open>fill\<close> and then \<^verbatim>\<open>stroke\<close>.
\<close>

theorem star_path:
  assumes "dragging s" "shapeType s = Some 1" "prevX s = Some px" "prevY s = Some py"
    and "x = Math_round (clientX evt - rect_left env)"
    and "y = Math_round (clientY evt - rect_top env)"
    and "3 \<le> \<bar>x - px\<bar> + \<bar>y - py\<bar>"
  shows "graphics (doMouseMove env evt s) =
           graphics s @ colorSwitch (colorChoice s) (randoms env) @ [BeginPath]
           @ (MoveTo (real_of_int x + 50 * cos 0) (real_of_int y + 50 * sin 0)
              # map (\<lambda>k. LineTo (real_of_int x + 50 * cos (real k * 2 * pi / 13))
                               (real_of_int y + 50 * sin (real k * 2 * pi / 13))) [0..<14])
           @ [Fill, Stroke]
         \<and> length (MoveTo (real_of_int x + 50 * cos 0) (real_of_int y + 50 * sin 0)
              # map (\<lambda>k. LineTo (real_of_int x + 50 * cos (real k * 2 * pi / 13))
                               (real_of_int y + 50 * sin (real k * 2 * pi / 13))) [0..<14]) = 15"
  by (simp add: doMouseMove_qualifying [OF assms(1) assms(3) assms(4) assms(5) assms(6) assms(7)]
       assms(2) shapeSwitch_def starLoop_map size_star_def)

text \<open>
  After a pointer-down at \<open>(50, 50)\<close> with the controls at red and star, a move to
  \<open>(50, 55)\<close> paints the star around \<open>(50, 55)\<close>.
\<close>

theorem star_path_witness:
  "dragging (armed 1 1) \<and> shapeType (armed 1 1) = Some 1
   \<and> prevX (armed 1 1) = Some 50 \<and> prevY (armed 1 1) = Some 50
   \<and> 3 \<le> \<bar>Math_round 50 - 50\<bar> + \<bar>Math_round 55 - 50\<bar>
   \<and> graphics (doMouseMove (controls 1 1) (mouseAt 0 50 55) (armed 1 1)) =
       [SetFillStyle ''white'', FillRect 0 0 800 600, SetFillStyle ''red'', BeginPath]
       @ (MoveTo (50 + 50 * cos 0) (55 + 50 * sin 0)
          # map (\<lambda>k. LineTo (50 + 50 * cos (real k * 2 * pi / 13))
                           (55 + 50 * sin (real k * 2 * pi / 13))) [0..<14])
       @ [Fill, Stroke]"
proof -
  have h: "dragging (armed 1 1)" "shapeType (armed 1 1) = Some 1"
    "prevX (armed 1 1) = Some 50" "prevY (armed 1 1) = Some 50"
    by (simp_all add: armed_state)
  have x: "50 = Math_round (clientX (mouseAt 0 50 55) - rect_left (controls 1 1))"
    and y: "55 = Math_round (clientY (mouseAt 0 50 55) - rect_top (controls 1 1))"
    by simp_all
  have d: "3 \<le> \<bar>50 - 50\<bar> + \<bar>55 - (50 :: int)\<bar>" by simp
  have c: "colorSwitch (colorChoice (armed 1 1)) (randoms (controls 1 1)) = [SetFillStyle ''red'']"
    by (simp add: armed_state colorSwitch_def)
  have g: "graphics (armed 1 1) = [SetFillStyle ''white'', FillRect 0 0 800 600]"
    by (simp add: armed_state)
  from star_path [OF h x y d] h show ?thesis
    by (simp add: c g)
qed

text \<open>
  Claim C4. A qualifying pointer-move with the shape selection 0 (square) issues, after
  the colour, \<^verbatim>\<open>fillRect\<close> and then \<^verbatim>\<open>strokeRect\<close> of the rectangle
  \<open>(x - 20, y - 20, 40, 40)\<close>, whose centre is \<open>(x, y)\<close>; with the colour selection 1 the
  colour is the assignment of \<^verbatim>\<open>"red"\<close> to the fill style.
\<close>

theorem square_stamp:
  assumes "dragging s" "shapeType s = Some 0" "prevX s = Some px" "prevY s = Some py"
    and "x = Math_round (clientX evt - rect_left env)"
    and "y = Math_round (clientY evt - rect_top env)"
    and "3 \<le> \<bar>x - px\<bar> + \<bar>y - py\<bar>"
  shows "graphics (doMouseMove env evt s) =
           graphics s @ colorSwitch (colorChoice s) (randoms env)
           @ [FillRect (real_of_int x - 20) (real_of_int y - 20) 40 40,
              StrokeRect (real_of_int x - 20) (real_of_int y - 20) 40 40]
         \<and> (colorChoice s = Some 1 \<longrightarrow>
              colorSwitch (colorChoice s) (randoms env) = [SetFillStyle ''red''])
         \<and> (real_of_int x - 20) + 40 / 2 = real_of_int x
         \<and> (real_of_int y - 20) + 40 / 2 = real_of_int y"
  by (simp add: doMouseMove_qualifying [OF assms(1) assms(3) assms(4) assms(5) assms(6) assms(7)]
       assms(2) shapeSwitch_def colorSwitch_def)

text \<open>
  The scenario of the specification: pointer-down at \<open>(50, 50)\<close> with red and square,
  then a move to \<open>(50, 55)\<close>; the rectangle is \<open>(30, 35, 40, 40)\<close>.
\<close>

theorem square_stamp_witness:
  "dragging (armed 1 0) \<and> shapeType (armed 1 0) = Some 0 \<and> colorChoice (armed 1 0) = Some 1
   \<and> prevX (armed 1 0) = Some 50 \<and> prevY (armed 1 0) = Some 50
   \<and> 3 \<le> \<bar>Math_round 50 - 50\<bar> + \<bar>Math_round 55 - 50\<bar>
   \<and> graphics (run [(''mousedown'', controls 1 0, mouseAt 0 50 50),
                     (''mousemove'', controls 1 0, mouseAt 0 50 55)] (init 800 600)) =
       [SetFillStyle ''white'', FillRect 0 0 800 600,
        SetFillStyle ''red'', FillRect 30 35 40 40, StrokeRect 30 35 40 40]"
proof -
  have h: "dragging (armed 1 0)" "shapeType (armed 1 0) = Some 0"
    "prevX (armed 1 0) = Some 50" "prevY (armed 1 0) = Some 50"
    by (simp_all add: armed_state)
  have x: "50 = Math_round (clientX (mouseAt 0 50 55) - rect_left (controls 1 0))"
    and y: "55 = Math_round (clientY (mouseAt 0 50 55) - rect_top (controls 1 0))"
    by simp_all
  have d: "3 \<le> \<bar>50 - 50\<bar> + \<bar>55 - (50 :: int)\<bar>" by simp
  have c: "colorChoice (armed 1 0) = Some 1"
    by (simp add: armed_state)
  have g: "graphics (armed 1 0) = [SetFillStyle ''white'', FillRect 0 0 800 600]"
    by (simp add: armed_state)
  have l: "docListeners (armed 1 0) = [moveListener, upListener]"
    by (simp add: armed_state)
  have r: "run [(''mousedown'', controls 1 0, mouseAt 0 50 50),
                (''mousemove'', controls 1 0, mouseAt 0 50 55)] (init 800 600)
           = doMouseMove (controls 1 0) (mouseAt 0 50 55) (armed 1 0)"
    by (simp add: armed_def [symmetric] dispatchDocument_def l)
       (simp add: moveListener_def upListener_def l)
  from square_stamp [OF h x y d] h c show ?thesis
    unfolding r by (simp add: g)
qed

text \<open>
  Claim C5, as stated, fails: with the colour selection 7, outside \<open>{0, ..., 4}\<close>, and
  the shape selection 0, a qualifying move still paints the square (with the fill style
  in force).
\<close>

theorem unmatched_color_still_paints:
  "dragging (armed 7 0) \<and> colorChoice (armed 7 0) = Some 7 \<and> shapeType (armed 7 0) = Some 0
   \<and> prevX (armed 7 0) = Some 50 \<and> prevY (armed 7 0) = Some 50
   \<and> graphics (doMouseMove (controls 7 0) (mouseAt 0 50 55) (armed 7 0)) =
       graphics (armed 7 0) @ [FillRect 30 35 40 40, StrokeRect 30 35 40 40]
   \<and> filter isPaint [FillRect 30 35 40 40, StrokeRect 30 35 40 40] \<noteq> []"
  by (simp add: armed_state doMouseMove_def tooClose_def colorSwitch_def shapeSwitch_def Let_def)

text \<open>
  Claim C5, amended. A qualifying pointer-move issues the calls of the colour switch and
  then those of the shape switch. A colour selection outside \<open>{0, ..., 4}\<close> issues no
  assignment to the fill style; a shape selection outside \<open>{0, 1}\<close> issues no call; the
  colour switch never paints. So no paint action occurs exactly when the shape selection
  is unmatched, whatever the colour selection. In every case \<open>prevX\<close>, \<open>prevY\<close> become
  the current position and the drag goes on.
\<close>

theorem unmatched_selection:
  assumes "dragging s" "prevX s = Some px" "prevY s = Some py"
    and "x = Math_round (clientX evt - rect_left env)"
    and "y = Math_round (clientY evt - rect_top env)"
    and "3 \<le> \<bar>x - px\<bar> + \<bar>y - py\<bar>"
  shows "graphics (doMouseMove env evt s) =
           graphics s @ colorSwitch (colorChoice s) (randoms env) @ shapeSwitch (shapeType s) x y
         \<and> (colorChoice s \<notin> {Some 0, Some 1, Some 2, Some 3, Some 4} \<longrightarrow>
              colorSwitch (colorChoice s) (randoms env) = [])
         \<and> (shapeType s \<notin> {Some 0, Some 1} \<longrightarrow> shapeSwitch (shapeType s) x y = [])
         \<and> filter isPaint (colorSwitch (colorChoice s) (randoms env)) = []
         \<and> prevX (doMouseMove env evt s) = Some x
         \<and> prevY (doMouseMove env evt s) = Some y
         \<and> dragging (doMouseMove env evt s)"
  using assms(1)
  by (simp add: doMouseMove_qualifying [OF assms] shapeSwitch_def colorSwitch_def)

text \<open>
  Both selections unmatched (7 and 9): the move to \<open>(50, 55)\<close> issues no call and
  updates the previous position.
\<close>

theorem unmatched_selection_witness:
  "dragging (armed 7 9) \<and> prevX (armed 7 9) = Some 50 \<and> prevY (armed 7 9) = Some 50
   \<and> colorChoice (armed 7 9) \<notin> {Some 0, Some 1, Some 2, Some 3, Some 4}
   \<and> shapeType (armed 7 9) \<notin> {Some 0, Some 1}
   \<and> 3 \<le> \<bar>Math_round 50 - 50\<bar> + \<bar>Math_round 55 - 50\<bar>
   \<and> graphics (doMouseMove (controls 7 9) (mouseAt 0 50 55) (armed 7 9)) = graphics (armed 7 9)
   \<and> prevX (doMouseMove (controls 7 9) (mouseAt 0 50 55) (armed 7 9)) = Some 50
   \<and> prevY (doMouseMove (controls 7 9) (mouseAt 0 50 55) (armed 7 9)) = Some 55"
proof -
  have h: "dragging (armed 7 9)" "prevX (armed 7 9) = Some 50" "prevY (armed 7 9) = Some 50"
    by (simp_all add: armed_state)
  have x: "50 = Math_round (clientX (mouseAt 0 50 55) - rect_left (controls 7 9))"
    and y: "55 = Math_round (clientY (mouseAt 0 50 55) - rect_top (controls 7 9))"
    by simp_all
  have d: "3 \<le> \<bar>50 - 50\<bar> + \<bar>55 - (50 :: int)\<bar>" by simp
  have c: "colorChoice (armed 7 9) \<notin> {Some 0, Some 1, Some 2, Some 3, Some 4}"
    and sh: "shapeType (armed 7 9) \<notin> {Some 0, Some 1}"
    by (simp_all add: armed_state)
  from unmatched_selection [OF h x y d] h c sh show ?thesis
    by simp
qed

subsection \<open>Listeners\<close>

text \<open>
  Claim C1 says that a pointer-up which ends a drag deregisters the move listener and the
  up listener, each with its own handler, so that no handler stays registered. The code
  at the pointer-up after a pointer-down: \<^verbatim>\<open>doMouseUp\<close> names \<^verbatim>\<open>doMouseMove\<close> in both
  calls of \<^verbatim>\<open>removeEventListener\<close>, so the listener of \<^verbatim>\<open>mouseup\<close> with the handler
  \<^verbatim>\<open>doMouseUp\<close> stays registered when the drag has ended.
\<close>

theorem up_listener_left_registered:
  "docListeners (armed 1 0) = [(''mousemove'', DoMouseMove, False), (''mouseup'', DoMouseUp, False)]
   \<and> dragging (armed 1 0)
   \<and> \<not> dragging (doMouseUp (controls 1 0) (mouseAt 0 50 50) (armed 1 0))
   \<and> docListeners (doMouseUp (controls 1 0) (mouseAt 0 50 50) (armed 1 0)) =
       [(''mouseup'', DoMouseUp, False)]
   \<and> docListeners (run [(''mousedown'', controls 1 0, mouseAt 0 50 50),
                         (''mouseup'', controls 1 0, mouseAt 0 50 50)] (init 800 600)) =
       [(''mouseup'', DoMouseUp, False)]"
proof -
  have l: "docListeners (armed 1 0) = [moveListener, upListener]"
    by (simp add: armed_state)
  have r: "run [(''mousedown'', controls 1 0, mouseAt 0 50 50),
                (''mouseup'', controls 1 0, mouseAt 0 50 50)] (init 800 600)
           = doMouseUp (controls 1 0) (mouseAt 0 50 50) (armed 1 0)"
    by (simp add: armed_def [symmetric] dispatchDocument_def l)
       (simp add: moveListener_def upListener_def l)
  show ?thesis
    unfolding r
    by (simp add: armed_state doMouseUp_def removeEventListener_def moveListener_def upListener_def)
qed

subsection \<open>The previous position\<close>

text \<open>
  Claim C8, as stated, fails: the state after a pointer-down at \<open>(50, 50)\<close> and a
  pointer-up is reachable and idle, and \<open>prevX\<close>, \<open>prevY\<close> are still defined.
\<close>

theorem lastPosition_kept_after_up:
  "reachable (run [(''mousedown'', controls 1 0, mouseAt 0 50 50),
                   (''mouseup'', controls 1 0, mouseAt 0 50 50)] (init 800 600))
   \<and> \<not> dragging (run [(''mousedown'', controls 1 0, mouseAt 0 50 50),
                        (''mouseup'', controls 1 0, mouseAt 0 50 50)] (init 800 600))
   \<and> prevX (run [(''mousedown'', controls 1 0, mouseAt 0 50 50),
                  (''mouseup'', controls 1 0, mouseAt 0 50 50)] (init 800 600)) = Some 50
   \<and> prevY (run [(''mousedown'', controls 1 0, mouseAt 0 50 50),
                  (''mouseup'', controls 1 0, mouseAt 0 50 50)] (init 800 600)) = Some 50"
proof -
  have l: "docListeners (armed 1 0) = [moveListener, upListener]"
    by (simp add: armed_state)
  have r: "run [(''mousedown'', controls 1 0, mouseAt 0 50 50),
                (''mouseup'', controls 1 0, mouseAt 0 50 50)] (init 800 600)
           = doMouseUp (controls 1 0) (mouseAt 0 50 50) (armed 1 0)"
    by (simp add: armed_def [symmetric] dispatchDocument_def l)
       (simp add: moveListener_def upListener_def l)
  have "reachable (run [(''mousedown'', controls 1 0, mouseAt 0 50 50),
                   (''mouseup'', controls 1 0, mouseAt 0 50 50)] (init 800 600))"
    by (rule reachable_run [OF reachable_init])
  then show ?thesis
    unfolding r
    by (simp add: armed_state doMouseUp_def removeEventListener_def)
qed

text \<open>
  Claim C8, amended. In every reachable state in which a drag is in progress, \<open>prevX\<close>
  and \<open>prevY\<close> are defined; \<^verbatim>\<open>doMouseUp\<close> leaves them as they are; they are undefined
  in the idle state in which the program starts.
\<close>

theorem lastPosition_defined_while_dragging:
  assumes "reachable s"
  shows "(dragging s \<longrightarrow> prevX s \<noteq> None \<and> prevY s \<noteq> None)
         \<and> prevX (doMouseUp env evt s) = prevX s
         \<and> prevY (doMouseUp env evt s) = prevY s
         \<and> \<not> dragging (init cw ch) \<and> prevX (init cw ch) = None \<and> prevY (init cw ch) = None"
  using reachable_positionsOk [OF assms]
  by (simp add: positionsOk_def doMouseUp_def removeEventListener_def init_def)

text \<open>
  The state after a pointer-down at \<open>(50, 50)\<close>.
\<close>

theorem lastPosition_defined_while_dragging_witness:
  "reachable (armed 1 0) \<and> dragging (armed 1 0)
   \<and> prevX (armed 1 0) \<noteq> None \<and> prevY (armed 1 0) \<noteq> None
   \<and> prevX (doMouseUp (controls 1 0) (mouseAt 0 50 50) (armed 1 0)) = prevX (armed 1 0)
   \<and> prevY (doMouseUp (controls 1 0) (mouseAt 0 50 50) (armed 1 0)) = prevY (armed 1 0)"
proof -
  have d: "dragging (armed 1 0)" by (simp add: armed_state)
  from lastPosition_defined_while_dragging [OF reachable_armed, of 1 0 "controls 1 0" "mouseAt 0 50 50" 800 600]
    reachable_armed [of 1 0] d
  show ?thesis by simp
qed

subsection \<open>The selections during a drag\<close>

lemma doMouseDown_arms:
  assumes "\<not> dragging s" "button evt = 0"
  shows "dragging (doMouseDown env evt s)"
    "colorChoice (doMouseDown env evt s) = Some (colorChoice_value env)"
    "shapeType (doMouseDown env evt s) = Some (shapeType_value env)"
  using assms by (simp_all add: doMouseDown_def addEventListener_def Let_def)

text \<open>
  Claim C9. The pointer-down that starts a drag reads the two controls. During the drag,
  that is for any events up to the next \<^verbatim>\<open>mouseup\<close>, the two selections keep these
  values, and what the controls show when an event is delivered has no effect: the same
  events with other values of the controls lead to the same state. With the colour
  selection 1 every fill style assigned during the drag is \<^verbatim>\<open>"red"\<close>, since the colour
  switch at 1 is the assignment of \<^verbatim>\<open>"red"\<close>.
\<close>

theorem selections_frozen_during_drag:
  assumes "reachable s0" "\<not> dragging s0" "button evt0 = 0"
    and "s1 = doMouseDown env0 evt0 s0"
    and "\<forall>e \<in> set evs. fst e \<noteq> ''mouseup''"
    and "list_all2 sameButControls evs evs'"
  shows "colorChoice s1 = Some (colorChoice_value env0)
         \<and> shapeType s1 = Some (shapeType_value env0)
         \<and> dragging (run evs s1)
         \<and> colorChoice (run evs s1) = Some (colorChoice_value env0)
         \<and> shapeType (run evs s1) = Some (shapeType_value env0)
         \<and> run evs' s1 = run evs s1
         \<and> (colorChoice_value env0 = 1 \<longrightarrow>
              (\<exists>new. graphics (run evs s1) = graphics s1 @ new
                     \<and> (\<forall>c. SetFillStyle c \<in> set new \<longrightarrow> c = ''red'')))
         \<and> colorSwitch (Some 1) rnd = [SetFillStyle ''red'']"
proof -
  have a: "dragging s1" "colorChoice s1 = Some (colorChoice_value env0)"
    "shapeType s1 = Some (shapeType_value env0)"
    unfolding assms(4) by (rule doMouseDown_arms [OF assms(2) assms(3)])+
  have l: "listenersOk s1"
    unfolding assms(4) by (rule doMouseDown_listenersOk [OF reachable_listenersOk [OF assms(1)]])
  have d: "inDrag s1 (run evs s1)"
    by (rule run_inDrag [OF l assms(5) inDrag_refl [OF a(1)]])
  have c: "run evs' s1 = run evs s1"
    by (rule run_controls [OF l inDrag_refl [OF a(1)] assms(5) assms(6)])
  from d a c show ?thesis
    unfolding inDrag_def by (auto simp: colorSwitch_red)
qed

text \<open>
  A drag started with red and square; the controls then show green, blue and yellow, and
  star: both stamps are red squares.
\<close>

theorem selections_frozen_during_drag_witness:
  "reachable (init 800 600) \<and> \<not> dragging (init 800 600) \<and> button (mouseAt 0 50 50) = 0
   \<and> ''mouseup'' \<notin> set (map fst [(''mousemove'', controls 2 1, mouseAt 0 50 55),
                   (''mousedown'', controls 3 1, mouseAt 0 70 70),
                   (''mousemove'', controls 4 1, mouseAt 0 60 60)])
   \<and> list_all2 sameButControls
        [(''mousemove'', controls 2 1, mouseAt 0 50 55),
         (''mousedown'', controls 3 1, mouseAt 0 70 70),
         (''mousemove'', controls 4 1, mouseAt 0 60 60)]
        [(''mousemove'', controls 1 0, mouseAt 0 50 55),
         (''mousedown'', controls 1 0, mouseAt 0 70 70),
         (''mousemove'', controls 1 0, mouseAt 0 60 60)]
   \<and> colorChoice (run [(''mousemove'', controls 2 1, mouseAt 0 50 55),
                        (''mousedown'', controls 3 1, mouseAt 0 70 70),
                        (''mousemove'', controls 4 1, mouseAt 0 60 60)] (armed 1 0)) = Some 1
   \<and> shapeType (run [(''mousemove'', controls 2 1, mouseAt 0 50 55),
                      (''mousedown'', controls 3 1, mouseAt 0 70 70),
                      (''mousemove'', controls 4 1, mouseAt 0 60 60)] (armed 1 0)) = Some 0
   \<and> run [(''mousemove'', controls 1 0, mouseAt 0 50 55),
           (''mousedown'', controls 1 0, mouseAt 0 70 70),
           (''mousemove'', controls 1 0, mouseAt 0 60 60)] (armed 1 0)
       = run [(''mousemove'', controls 2 1, mouseAt 0 50 55),
              (''mousedown'', controls 3 1, mouseAt 0 70 70),
              (''mousemove'', controls 4 1, mouseAt 0 60 60)] (armed 1 0)
   \<and> (\<exists>new. graphics (run [(''mousemove'', controls 2 1, mouseAt 0 50 55),
                             (''mousedown'', controls 3 1, mouseAt 0 70 70),
                             (''mousemove'', controls 4 1, mouseAt 0 60 60)] (armed 1 0))
               = graphics (armed 1 0) @ new
             \<and> (\<forall>c. SetFillStyle c \<in> set new \<longrightarrow> c = ''red''))
   \<and> graphics (run [(''mousemove'', controls 2 1, mouseAt 0 50 55),
                      (''mousedown'', controls 3 1, mouseAt 0 70 70),
                      (''mousemove'', controls 4 1, mouseAt 0 60 60)] (armed 1 0)) =
       [SetFillStyle ''white'', FillRect 0 0 800 600,
        SetFillStyle ''red'', FillRect 30 35 40 40, StrokeRect 30 35 40 40,
        SetFillStyle ''red'', FillRect 40 40 40 40, StrokeRect 40 40 40 40]"
proof -
  have g: "graphics (run [(''mousemove'', controls 2 1, mouseAt 0 50 55),
                      (''mousedown'', controls 3 1, mouseAt 0 70 70),
                      (''mousemove'', controls 4 1, mouseAt 0 60 60)] (armed 1 0)) =
       [SetFillStyle ''white'', FillRect 0 0 800 600,
        SetFillStyle ''red'', FillRect 30 35 40 40, StrokeRect 30 35 40 40,
        SetFillStyle ''red'', FillRect 40 40 40 40, StrokeRect 40 40 40 40]"
    by (simp add: armed_state dispatchDocument_def)
       (simp add: moveListener_def upListener_def doMouseMove_def doMouseDown_def tooClose_def
         colorSwitch_def shapeSwitch_def Let_def)
  have h1: "reachable (init 800 600)" by (rule reachable_init)
  have h2: "\<not> dragging (init 800 600)" by (simp add: init_def)
  have h3: "button (mouseAt 0 50 50) = 0" by (simp add: mouseAt_def)
  have h4: "armed 1 0 = doMouseDown (controls 1 0) (mouseAt 0 50 50) (init 800 600)"
    by (simp add: armed_def)
  have h5: "\<forall>e \<in> set [(''mousemove'', controls 2 1, mouseAt 0 50 55),
                   (''mousedown'', controls 3 1, mouseAt 0 70 70),
                   (''mousemove'', controls 4 1, mouseAt 0 60 60)]. fst e \<noteq> ''mouseup''"
    by simp
  have h6: "list_all2 sameButControls
        [(''mousemove'', controls 2 1, mouseAt 0 50 55),
         (''mousedown'', controls 3 1, mouseAt 0 70 70),
         (''mousemove'', controls 4 1, mouseAt 0 60 60)]
        [(''mousemove'', controls 1 0, mouseAt 0 50 55),
         (''mousedown'', controls 1 0, mouseAt 0 70 70),
         (''mousemove'', controls 1 0, mouseAt 0 60 60)]"
    by (simp add: controls_def)
  have v: "colorChoice_value (controls 1 0) = 1" "shapeType_value (controls 1 0) = 0"
    by (simp_all add: controls_def)
  note t = selections_frozen_during_drag [OF h1 h2 h3 h4 h5 h6, of "(0, 0, 0)", unfolded v]
  from t have e: "\<exists>new. graphics (run [(''mousemove'', controls 2 1, mouseAt 0 50 55),
                             (''mousedown'', controls 3 1, mouseAt 0 70 70),
                             (''mousemove'', controls 4 1, mouseAt 0 60 60)] (armed 1 0))
               = graphics (armed 1 0) @ new
             \<and> (\<forall>c. SetFillStyle c \<in> set new \<longrightarrow> c = ''red'')"
    by blast
  from t have r1: "colorChoice (run [(''mousemove'', controls 2 1, mouseAt 0 50 55),
                        (''mousedown'', controls 3 1, mouseAt 0 70 70),
                        (''mousemove'', controls 4 1, mouseAt 0 60 60)] (armed 1 0)) = Some 1"
    and r2: "shapeType (run [(''mousemove'', controls 2 1, mouseAt 0 50 55),
                      (''mousedown'', controls 3 1, mouseAt 0 70 70),
                      (''mousemove'', controls 4 1, mouseAt 0 60 60)] (armed 1 0)) = Some 0"
    and r3: "run [(''mousemove'', controls 1 0, mouseAt 0 50 55),
           (''mousedown'', controls 1 0, mouseAt 0 70 70),
           (''mousemove'', controls 1 0, mouseAt 0 60 60)] (armed 1 0)
       = run [(''mousemove'', controls 2 1, mouseAt 0 50 55),
              (''mousedown'', controls 3 1, mouseAt 0 70 70),
              (''mousemove'', controls 4 1, mouseAt 0 60 60)] (armed 1 0)"
    by blast+
  have n: "''mouseup'' \<notin> set (map fst [(''mousemove'', controls 2 1, mouseAt 0 50 55),
                   (''mousedown'', controls 3 1, mouseAt 0 70 70),
                   (''mousemove'', controls 4 1, mouseAt 0 60 60)])"
    by simp
  show ?thesis
    by (rule conjI h1 h2 h3 n h6 r1 r2 r3 e g)+
qed

end
